theory Spec2Isabelle
  imports Main
begin

section \<open>The jokes API: data model\<close>

text \<open>
  The server of \<^verbatim>\<open>index.js\<close> keeps its jokes in a module-level array and answers each
  route from it. The model below follows the handlers one by one.

  Values. The request bodies and the bundled data file are parsed JSON. A JSON number is
  a JavaScript number, a double: the integers are modelled as unbounded integers (a double
  is exact on the integers below \<open>2^53\<close>; the id counter starts at \<open>10000000\<close> and moves
  by one per create), and the two infinities, which \<^verbatim>\<open>JSON.parse\<close> and \<^verbatim>\<open>parseInt\<close> give for
  a numeral beyond the range of the doubles, are values of their own. The strings of the
  bodies and of the query are character lists; the id of a path, which \<^verbatim>\<open>parseInt\<close>
  reads code unit by code unit, is a list of UTF-16 code units.
\<close>

datatype json =
    JNull
  | JBool bool
  | JNum int
  | JPosInfinity
  | JNegInfinity
  | JStr string
  | JArr "json list"
  | JObj "(string \<times> json) list"

text \<open>
  A joke is a JavaScript object: the parsed body of a POST, or an element of the data
  file. \<^verbatim>\<open>express.json()\<close> only hands objects and arrays to a handler, and an array is
  an object too (it takes named properties next to its elements), so \<open>elems\<close> is
  \<open>Some\<close> for an array and \<open>None\<close> for a plain object. The handlers only read and write
  the named properties \<^verbatim>\<open>id\<close>, \<^verbatim>\<open>timestamp\<close>, \<^verbatim>\<open>setup\<close> and \<^verbatim>\<open>punchline\<close>.
\<close>

record joke =
  props :: "(string \<times> json) list"
  elems :: "json list option"

text \<open>Reading \<^verbatim>\<open>j.k\<close>: \<open>None\<close> is \<^verbatim>\<open>undefined\<close>.\<close>

definition get_prop :: "joke \<Rightarrow> string \<Rightarrow> json option" where
  "get_prop j k = map_of (props j) k"

text \<open>
  Writing \<^verbatim>\<open>j.k = v\<close>: an existing property keeps its place and takes the new value, a
  new one goes to the end.
\<close>

fun assign :: "string \<Rightarrow> json \<Rightarrow> (string \<times> json) list \<Rightarrow> (string \<times> json) list" where
  "assign k v [] = [(k, v)]"
| "assign k v ((k', v') # ps) = (if k' = k then (k, v) # ps else (k', v') # assign k v ps)"

definition set_prop :: "joke \<Rightarrow> string \<Rightarrow> json \<Rightarrow> joke" where
  "set_prop j k v = j\<lparr>props := assign k v (props j)\<rparr>"

text \<open>\<^verbatim>\<open>req.body\<close>, as \<^verbatim>\<open>handleRequestForPOSTJoke\<close> tells its cases apart.\<close>

datatype body = BodyUndefined | BodyNull | BodyObject joke

text \<open>
  What a handler does with \<^verbatim>\<open>res\<close>: a status and either plain text (\<^verbatim>\<open>res.send\<close>)
  or the value given to \<^verbatim>\<open>res.json\<close>. An array given to \<^verbatim>\<open>res.json\<close> can hold
  \<^verbatim>\<open>undefined\<close> (\<open>None\<close>), as \<^verbatim>\<open>[chosenJoke]\<close> does on an empty store.
\<close>

datatype payload =
    Text string
  | JsonJoke joke
  | JsonArray "joke option list"
  | JsonObject "(string \<times> json) list"

record response =
  status :: nat
  payload :: payload

text \<open>
  A handler that throws does not answer; \<^verbatim>\<open>express\<close> catches the exception and its
  default error handler answers 500.
\<close>

datatype js_error = TypeError

datatype outcome = Responded response | Threw js_error

text \<open>
  The module-level variables. \<^verbatim>\<open>originalJokesList\<close> is the array of the data file
  \<^verbatim>\<open>./data/jokesData.json\<close>; \<^verbatim>\<open>allJokes\<close> starts as \<^verbatim>\<open>[...originalJokesList]\<close>, a new
  array with the same elements, so the in-place updates of \<^verbatim>\<open>allJokes\<close> (\<^verbatim>\<open>push\<close>,
  \<^verbatim>\<open>splice\<close>, \<^verbatim>\<open>length = 0\<close>) never reach \<^verbatim>\<open>originalJokesList\<close>. No handler writes
  to an element of either array: the only object written to is the body of the request
  being handled.
\<close>

record state =
  originalJokesList :: "joke list"
  allJokes :: "joke list"
  nextJokeId :: int

definition init :: "joke list \<Rightarrow> state" where
  "init seed = \<lparr>originalJokesList = seed, allJokes = seed, nextJokeId = 10000000\<rparr>"

section \<open>Built-ins the handlers call\<close>

subsection \<open>JavaScript strings and numbers\<close>

text \<open>
  A JavaScript string is a sequence of UTF-16 code units. \<open>code_units\<close> gives the code
  units of a character list whose characters are all below 256 (Latin-1), where character
  and code unit have the same number.
\<close>

type_synonym code_unit = nat

definition code_units :: "string \<Rightarrow> code_unit list" where
  "code_units s = map of_char s"

text \<open>
  The numbers \<^verbatim>\<open>parseInt\<close> can return, \<^verbatim>\<open>NaN\<close> apart: an integer that is a double, or
  an infinity. \<open>number_json\<close> is the same number as a value of a property.
\<close>

datatype number = Num int | PosInfinity | NegInfinity

fun number_json :: "number \<Rightarrow> json" where
  "number_json (Num n) = JNum n"
| "number_json PosInfinity = JPosInfinity"
| "number_json NegInfinity = JNegInfinity"

text \<open>
  The double nearest to a natural number \<open>m\<close>, ties to the even significand; \<open>None\<close>
  is \<^verbatim>\<open>Infinity\<close>. Below \<open>2^53 = 9007199254740992\<close> every integer is a double. Above,
  \<open>excess_bits m\<close> is the number of low bits that do not fit the 53 bits of the
  significand: with \<open>m = q * 2^e + r\<close> the result is \<open>q * 2^e\<close> or \<open>(q + 1) * 2^e\<close>, and
  from \<open>2^1024\<close> on it is \<^verbatim>\<open>Infinity\<close>.
\<close>

fun excess_bits :: "nat \<Rightarrow> nat" where
  "excess_bits m = (if m < 9007199254740992 then 0 else Suc (excess_bits (m div 2)))"

declare excess_bits.simps [simp del]

definition round_to_double :: "nat \<Rightarrow> nat option" where
  "round_to_double m =
     (let e = excess_bits m;
          q = m div 2 ^ e;
          r = m mod 2 ^ e;
          q' = (if 2 ^ e < 2 * r \<or> (2 * r = 2 ^ e \<and> odd q) then q + 1 else q);
          v = q' * 2 ^ e
      in if v < 2 ^ 1024 then Some v else None)"

subsection \<open>\<^verbatim>\<open>parseInt\<close>\<close>

text \<open>
  \<^verbatim>\<open>parseInt(s)\<close> without a radix: leading white space is dropped, then an optional sign,
  then an optional \<^verbatim>\<open>0x\<close>/\<^verbatim>\<open>0X\<close> (which makes the radix 16); the longest run of digits
  of the radix that follows is the number, and no digit at all gives \<^verbatim>\<open>NaN\<close> (\<open>None\<close>).
  The result is the double nearest to the signed number read (ECMAScript leaves the
  decimal digits after the twentieth to the implementation; V8 rounds the exact number).

  White space is ECMAScript's \<^verbatim>\<open>WhiteSpace\<close> and \<^verbatim>\<open>LineTerminator\<close>: TAB, LF, VT, FF, CR,
  the space, U+00A0, U+1680, U+2000 to U+200A, U+2028, U+2029, U+202F, U+205F, U+3000 and
  U+FEFF. The digits are \<^verbatim>\<open>0\<close> to \<^verbatim>\<open>9\<close> and the letters, in either case, from 10 on.
\<close>

definition is_white_space :: "code_unit \<Rightarrow> bool" where
  "is_white_space c =
     (c \<in> set [0x09, 0x0A, 0x0B, 0x0C, 0x0D, 0x20, 0xA0, 0x1680,
                0x2028, 0x2029, 0x202F, 0x205F, 0x3000, 0xFEFF]
      \<or> (0x2000 \<le> c \<and> c \<le> 0x200A))"

definition digit_value :: "code_unit \<Rightarrow> nat option" where
  "digit_value c =
     (if 48 \<le> c \<and> c \<le> 57 then Some (c - 48)
      else if 97 \<le> c \<and> c \<le> 122 then Some (c - 87)
      else if 65 \<le> c \<and> c \<le> 90 then Some (c - 55)
      else None)"

definition is_digit_of :: "nat \<Rightarrow> code_unit \<Rightarrow> bool" where
  "is_digit_of radix c = (case digit_value c of None \<Rightarrow> False | Some d \<Rightarrow> d < radix)"

definition digits_value :: "nat \<Rightarrow> code_unit list \<Rightarrow> nat" where
  "digits_value radix z = foldl (\<lambda>a c. a * radix + the (digit_value c)) 0 z"

text \<open>The sign is \<open>True\<close> for a leading \<^verbatim>\<open>-\<close> (code unit 45); \<^verbatim>\<open>+\<close> is 43.\<close>

fun strip_sign :: "code_unit list \<Rightarrow> bool \<times> code_unit list" where
  "strip_sign (c # cs) =
     (if c = 45 then (True, cs) else if c = 43 then (False, cs) else (False, c # cs))"
| "strip_sign [] = (False, [])"

text \<open>\<^verbatim>\<open>0\<close> is 48, \<^verbatim>\<open>x\<close> is 120 and \<^verbatim>\<open>X\<close> is 88.\<close>

fun strip_prefix :: "code_unit list \<Rightarrow> nat \<times> code_unit list" where
  "strip_prefix (c # d # cs) =
     (if c = 48 \<and> (d = 120 \<or> d = 88) then (16, cs) else (10, c # d # cs))"
| "strip_prefix cs = (10, cs)"

definition parseInt :: "code_unit list \<Rightarrow> number option" where
  "parseInt s =
     (let (negative, s1) = strip_sign (dropWhile is_white_space s);
          (radix, s2) = strip_prefix s1;
          z = takeWhile (is_digit_of radix) s2
      in if z = [] then None
         else Some (case round_to_double (digits_value radix z) of
                      None \<Rightarrow> if negative then NegInfinity else PosInfinity
                    | Some v \<Rightarrow> Num (if negative then - int v else int v)))"

subsection \<open>\<^verbatim>\<open>String.prototype.includes\<close> and \<^verbatim>\<open>Array.prototype.includes\<close>\<close>

fun starts_with :: "string \<Rightarrow> string \<Rightarrow> bool" where
  "starts_with s [] = True"
| "starts_with [] (c # t) = False"
| "starts_with (d # s) (c # t) = (d = c \<and> starts_with s t)"

fun str_includes :: "string \<Rightarrow> string \<Rightarrow> bool" where
  "str_includes [] t = (t = [])"
| "str_includes (d # s) t = (starts_with (d # s) t \<or> str_includes s t)"

text \<open>
  \<^verbatim>\<open>v.includes(term)\<close> for a property value \<open>v\<close> read from a joke. On a string it is the
  substring test, on an array the membership test; \<^verbatim>\<open>undefined\<close> and \<^verbatim>\<open>null\<close> have no
  properties, and on a boolean, a number or an object parsed from JSON \<^verbatim>\<open>includes\<close> is
  not a function: all of these throw a \<^verbatim>\<open>TypeError\<close>.
\<close>

fun js_includes :: "json option \<Rightarrow> string \<Rightarrow> js_error + bool" where
  "js_includes (Some (JStr s)) t = Inr (str_includes s t)"
| "js_includes (Some (JArr xs)) t = Inr (JStr t \<in> set xs)"
| "js_includes _ t = Inl TypeError"

subsection \<open>Array methods\<close>

text \<open>\<^verbatim>\<open>findIndex\<close>: \<open>None\<close> is \<^verbatim>\<open>-1\<close>.\<close>

fun findIndex :: "('a \<Rightarrow> bool) \<Rightarrow> 'a list \<Rightarrow> nat option" where
  "findIndex p [] = None"
| "findIndex p (x # xs) =
     (if p x then Some 0 else (case findIndex p xs of None \<Rightarrow> None | Some i \<Rightarrow> Some (Suc i)))"

text \<open>\<^verbatim>\<open>xs.splice(i, 1)\<close>, for the array left behind.\<close>

definition splice1 :: "nat \<Rightarrow> 'a list \<Rightarrow> 'a list" where
  "splice1 i xs = take i xs @ drop (Suc i) xs"

text \<open>
  \<^verbatim>\<open>filter\<close> with a callback that can throw: the first exception ends the loop.
\<close>

fun filter_throwing :: "('a \<Rightarrow> js_error + bool) \<Rightarrow> 'a list \<Rightarrow> js_error + 'a list" where
  "filter_throwing p [] = Inr []"
| "filter_throwing p (x # xs) =
     (case p x of
        Inl e \<Rightarrow> Inl e
      | Inr b \<Rightarrow>
          (case filter_throwing p xs of
             Inl e \<Rightarrow> Inl e
           | Inr ys \<Rightarrow> Inr (if b then x # ys else ys)))"

text \<open>\<^verbatim>\<open>lodash.sample\<close>, with the random draw \<open>r\<close> as an input.\<close>

definition sample :: "nat \<Rightarrow> 'a list \<Rightarrow> 'a option" where
  "sample r xs = (if xs = [] then None else Some (xs ! (r mod length xs)))"

section \<open>The handlers\<close>

definition handleRoot :: "response" where
  "handleRoot = \<lparr>status = 200, payload = Text
     ''Hello - this is a jokes API server.  Try /jokes or /jokes/random or /api-docs for documentation.''\<rparr>"

text \<open>\<open>now\<close> is \<^verbatim>\<open>new Date()\<close> as a string.\<close>

definition handleGetTime :: "string \<Rightarrow> response" where
  "handleGetTime now = \<lparr>status = 200, payload = Text now\<rparr>"

definition handleGetAllJokes :: "state \<Rightarrow> response" where
  "handleGetAllJokes s = \<lparr>status = 200, payload = JsonArray (map Some (allJokes s))\<rparr>"

definition handleGetFirstJoke :: "state \<Rightarrow> response" where
  "handleGetFirstJoke s =
     (case allJokes s of
        j # _ \<Rightarrow> \<lparr>status = 200, payload = JsonJoke j\<rparr>
      | [] \<Rightarrow> \<lparr>status = 404, payload = JsonObject
                [(''outcome'', JStr ''failure''), (''message'', JStr ''no jokes in database'')]\<rparr>)"

text \<open>\<^verbatim>\<open>j.id === n\<close> for a number \<open>n\<close>; \<^verbatim>\<open>NaN\<close> (\<open>None\<close>) equals nothing.\<close>

definition id_is :: "number option \<Rightarrow> joke \<Rightarrow> bool" where
  "id_is n j = (case n of None \<Rightarrow> False | Some m \<Rightarrow> get_prop j ''id'' = Some (number_json m))"

definition handleDeleteJoke :: "state \<Rightarrow> code_unit list option \<Rightarrow> state \<times> response" where
  "handleDeleteJoke s param =
     (case param of
        None \<Rightarrow> (s, \<lparr>status = 404, payload = Text ''missing id''\<rparr>)
      | Some soughtId \<Rightarrow>
          (case findIndex (id_is (parseInt soughtId)) (allJokes s) of
             None \<Rightarrow> (s, \<lparr>status = 404, payload = JsonObject
                        [(''outcome'', JStr ''failure''), (''message'', JStr ''joke not found'')]\<rparr>)
           | Some i \<Rightarrow>
               (s\<lparr>allJokes := splice1 i (allJokes s)\<rparr>,
                \<lparr>status = 200, payload = JsonJoke (allJokes s ! i)\<rparr>)))"

definition handleDeleteAllJokes :: "state \<Rightarrow> state \<times> response" where
  "handleDeleteAllJokes s =
     (s\<lparr>allJokes := []\<rparr>,
      \<lparr>status = 200, payload = JsonObject
         [(''outcome'', JStr ''success''), (''message'', JStr ''all jokes deleted'')]\<rparr>)"

text \<open>
  \<open>term\<close> is \<^verbatim>\<open>req.query.searchTerm?.toString()\<close>; \<^verbatim>\<open>!searchTerm\<close> holds for
  \<^verbatim>\<open>undefined\<close> and for the empty string. In \<^verbatim>\<open>a || b\<close> the right side is only
  evaluated when the left side is false.
\<close>

definition matches :: "string \<Rightarrow> joke \<Rightarrow> js_error + bool" where
  "matches t j =
     (case js_includes (get_prop j ''setup'') t of
        Inl e \<Rightarrow> Inl e
      | Inr True \<Rightarrow> Inr True
      | Inr False \<Rightarrow> js_includes (get_prop j ''punchline'') t)"

definition handleJokesSearch :: "state \<Rightarrow> string option \<Rightarrow> outcome" where
  "handleJokesSearch s term =
     (case term of
        None \<Rightarrow> Responded \<lparr>status = 400, payload = Text ''missing searchTerm query parameter''\<rparr>
      | Some t \<Rightarrow>
          if t = [] then
            Responded \<lparr>status = 400, payload = Text ''missing searchTerm query parameter''\<rparr>
          else
            (case filter_throwing (matches t) (allJokes s) of
               Inl e \<Rightarrow> Threw e
             | Inr foundJokes \<Rightarrow>
                 Responded \<lparr>status = 200, payload = JsonArray (map Some foundJokes)\<rparr>))"

definition handleRequestForRandomJoke :: "state \<Rightarrow> nat \<Rightarrow> response" where
  "handleRequestForRandomJoke s r = \<lparr>status = 200, payload = JsonArray [sample r (allJokes s)]\<rparr>"

text \<open>\<open>param\<close> is \<^verbatim>\<open>req.params.id\<close>; \<^verbatim>\<open>??\<close> replaces \<^verbatim>\<open>undefined\<close> by the empty string.\<close>

definition handleGetJokeById :: "state \<Rightarrow> code_unit list option \<Rightarrow> response" where
  "handleGetJokeById s param =
     (case parseInt (case param of None \<Rightarrow> [] | Some x \<Rightarrow> x) of
        None \<Rightarrow> \<lparr>status = 400, payload = JsonObject
                  [(''outcome'', JStr ''failure''), (''message'', JStr ''missing id to search for.'')]\<rparr>
      | Some soughtId \<Rightarrow>
          (case find (id_is (Some soughtId)) (allJokes s) of
             None \<Rightarrow> \<lparr>status = 404, payload = JsonObject
                       [(''outcome'', JStr ''failure''),
                        (''message'', JStr ''can't find joke with that id.''),
                        (''soughtId'', number_json soughtId)]\<rparr>
           | Some foundJoke \<Rightarrow> \<lparr>status = 200, payload = JsonJoke foundJoke\<rparr>))"

text \<open>\<open>now\<close> is \<^verbatim>\<open>new Date() + ""\<close>.\<close>

definition handleRequestForPOSTJoke :: "state \<Rightarrow> body \<Rightarrow> string \<Rightarrow> state \<times> response" where
  "handleRequestForPOSTJoke s b now =
     (case b of
        BodyUndefined \<Rightarrow> (s, \<lparr>status = 400, payload = Text
          ''where is your joke! it's not in the body, i think''\<rparr>)
      | BodyNull \<Rightarrow> (s, \<lparr>status = 400, payload = Text
          ''where is your joke! it's not in the body, i think''\<rparr>)
      | BodyObject newJoke \<Rightarrow>
          (let id = nextJokeId s;
               s1 = s\<lparr>nextJokeId := nextJokeId s + 1\<rparr>;
               newJoke1 = set_prop newJoke ''id'' (JNum id);
               newJoke2 = set_prop newJoke1 ''timestamp'' (JStr now)
           in (s1\<lparr>allJokes := allJokes s1 @ [newJoke2]\<rparr>,
               \<lparr>status = 201, payload = JsonJoke newJoke2\<rparr>)))"

definition handleReset :: "state \<Rightarrow> state \<times> response" where
  "handleReset s =
     (s\<lparr>allJokes := originalJokesList s\<rparr>,
      \<lparr>status = 200, payload = JsonObject
         [(''outcome'', JStr ''success''), (''message'', JStr ''jokes list has been reset'')]\<rparr>)"

text \<open>
  The other \<^verbatim>\<open>index.js\<close> of the repository answers \<^verbatim>\<open>GET /jokes/first\<close> with
  \<^verbatim>\<open>res.json([allJokes[0]])\<close>; \<^verbatim>\<open>allJokes[0]\<close> of an empty array is \<^verbatim>\<open>undefined\<close>.
\<close>

definition handleRequestForFirstJoke :: "joke list \<Rightarrow> response" where
  "handleRequestForFirstJoke jokes =
     \<lparr>status = 200, payload = JsonArray [case jokes of [] \<Rightarrow> None | j # _ \<Rightarrow> Some j]\<rparr>"

section \<open>Requests and runs\<close>

datatype request =
    GetRoot
  | GetTime string
  | GetAllJokes
  | GetFirstJoke
  | DeleteJoke "code_unit list option"
  | DeleteAllJokes
  | JokesSearch "string option"
  | RandomJoke nat
  | GetJokeById "code_unit list option"
  | PostJoke body string
  | ResetJokes

fun step :: "state \<Rightarrow> request \<Rightarrow> state \<times> outcome" where
  "step s GetRoot = (s, Responded handleRoot)"
| "step s (GetTime now) = (s, Responded (handleGetTime now))"
| "step s GetAllJokes = (s, Responded (handleGetAllJokes s))"
| "step s GetFirstJoke = (s, Responded (handleGetFirstJoke s))"
| "step s (DeleteJoke param) = (let (s', r) = handleDeleteJoke s param in (s', Responded r))"
| "step s DeleteAllJokes = (let (s', r) = handleDeleteAllJokes s in (s', Responded r))"
| "step s (JokesSearch term) = (s, handleJokesSearch s term)"
| "step s (RandomJoke r) = (s, Responded (handleRequestForRandomJoke s r))"
| "step s (GetJokeById param) = (s, Responded (handleGetJokeById s param))"
| "step s (PostJoke b now) = (let (s', r) = handleRequestForPOSTJoke s b now in (s', Responded r))"
| "step s ResetJokes = (let (s', r) = handleReset s in (s', Responded r))"

text \<open>The requests are handled one after the other; \<open>run\<close> keeps every outcome.\<close>

fun run :: "state \<Rightarrow> request list \<Rightarrow> state \<times> outcome list" where
  "run s [] = (s, [])"
| "run s (r # rs) =
     (let (s1, out) = step s r; (s2, outs) = run s1 rs in (s2, out # outs))"

section \<open>Observations on a run\<close>

text \<open>
  The id a response reports as newly assigned: the \<^verbatim>\<open>id\<close> of the joke in a 201 answer
  (only \<^verbatim>\<open>POST /jokes\<close> answers 201).
\<close>

definition created_id :: "outcome \<Rightarrow> int list" where
  "created_id out =
     (case out of
        Responded r \<Rightarrow>
          (if status r = 201 then
             (case payload r of
                JsonJoke j \<Rightarrow> (case get_prop j ''id'' of Some (JNum n) \<Rightarrow> [n] | _ \<Rightarrow> [])
              | _ \<Rightarrow> [])
           else [])
      | Threw e \<Rightarrow> [])"

definition created_ids :: "outcome list \<Rightarrow> int list" where
  "created_ids outs = concat (map created_id outs)"

text \<open>The requests that create a joke: a \<^verbatim>\<open>POST /jokes\<close> whose body is an object.\<close>

fun is_create :: "request \<Rightarrow> bool" where
  "is_create (PostJoke (BodyObject b) now) = True"
| "is_create r = False"

text \<open>\<^verbatim>\<open>j.id\<close>, and the invariant of the store behind the uniqueness of ids.\<close>

definition joke_id :: "joke \<Rightarrow> json option" where
  "joke_id j = get_prop j ''id''"

definition store_inv :: "state \<Rightarrow> bool" where
  "store_inv s \<longleftrightarrow>
     distinct (map joke_id (originalJokesList s))
     \<and> (\<forall>j\<in>set (originalJokesList s). \<exists>n<10000000. joke_id j = Some (JNum n))
     \<and> 10000000 \<le> nextJokeId s
     \<and> distinct (map joke_id (allJokes s))
     \<and> (\<forall>j\<in>set (allJokes s). \<exists>n<nextJokeId s. joke_id j = Some (JNum n))"

text \<open>The example joke of the \<^verbatim>\<open>Joke\<close> schema in the \<^verbatim>\<open>@openapi\<close> comments.\<close>

definition fish :: joke where
  "fish = \<lparr>props = [(''id'', JNum 1), (''type'', JStr ''general''),
     (''setup'', JStr ''What did the fish say when it hit the wall?''),
     (''punchline'', JStr ''Dam.'')], elems = None\<rparr>"

section \<open>Facts about the built-ins\<close>

lemma parseInt_examples:
  "parseInt (code_units ''42'') = Some (Num 42)"
  "parseInt (code_units '' -7'') = Some (Num (- 7))"
  "parseInt (code_units ''12abc'') = Some (Num 12)"
  "parseInt (code_units ''1.5'') = Some (Num 1)"
  "parseInt (code_units ''0x1F'') = Some (Num 31)"
  "parseInt (code_units ''-0'') = Some (Num 0)"
  "parseInt (code_units ''abc'') = None"
  "parseInt (code_units []) = None"
  "parseInt (code_units ''0x'') = None"
  "parseInt (code_units ''- 1'') = None"
  by (simp_all add: parseInt_def code_units_def is_white_space_def is_digit_of_def digit_value_def digits_value_def
      round_to_double_def excess_bits.simps Let_def)

text \<open>
  The rounding: exact below \<open>2^53\<close>; the significand left after dropping the excess
  bits has 53 bits; the result is a multiple of \<open>2^e\<close> at most half of \<open>2^e\<close> away from
  the number, with an even significand at a tie; from \<open>2^1024\<close> on it is \<^verbatim>\<open>Infinity\<close>.
\<close>

lemma round_to_double_exact: "m < 9007199254740992 \<Longrightarrow> round_to_double m = Some m"
proof -
  assume m: "m < 9007199254740992"
  then have e: "excess_bits m = 0" by (simp add: excess_bits.simps)
  have "m < (2::nat) ^ 1024"
  proof -
    have "(9007199254740992::nat) = 2 ^ 53" by simp
    also have "\<dots> \<le> 2 ^ 1024" by (rule power_increasing) simp_all
    finally show ?thesis using m by linarith
  qed
  then show ?thesis by (simp add: round_to_double_def e)
qed

lemma excess_bits_significand:
  "m div 2 ^ excess_bits m < 9007199254740992
   \<and> (0 < excess_bits m \<longrightarrow> 4503599627370496 \<le> m div 2 ^ excess_bits m)"
proof (induction m rule: excess_bits.induct)
  case (1 m)
  show ?case
  proof (cases "m < 9007199254740992")
    case True
    then show ?thesis by (simp add: excess_bits.simps)
  next
    case False
    then have e: "excess_bits m = Suc (excess_bits (m div 2))"
      by (subst excess_bits.simps) simp
    have d: "m div 2 ^ excess_bits m = (m div 2) div 2 ^ excess_bits (m div 2)"
      by (simp add: e div_mult2_eq)
    from 1[OF False] have IH: "m div 2 div 2 ^ excess_bits (m div 2) < 9007199254740992"
      "0 < excess_bits (m div 2) \<longrightarrow> 4503599627370496 \<le> m div 2 div 2 ^ excess_bits (m div 2)"
      by blast+
    have "4503599627370496 \<le> m div 2 div 2 ^ excess_bits (m div 2)"
    proof (cases "excess_bits (m div 2)")
      case 0
      from False have "4503599627370496 \<le> m div 2" by linarith
      with 0 show ?thesis by simp
    next
      case (Suc k)
      with IH(2) show ?thesis by simp
    qed
    with IH(1) d show ?thesis by simp
  qed
qed

lemma round_to_double_overflow:
  assumes big: "2 ^ 1024 \<le> m"
  shows "round_to_double m = None"
proof -
  define e where "e = excess_bits m"
  define q where "q = m div 2 ^ e"
  have p53: "(9007199254740992::nat) = 2 ^ 53" and p52: "(4503599627370496::nat) = 2 ^ 52"
    by simp_all
  have q_lt: "q < 2 ^ 53" and q_ge: "0 < e \<longrightarrow> 2 ^ 52 \<le> q"
    using excess_bits_significand[of m] unfolding q_def e_def p53 p52 by blast+
  have e_ge: "972 \<le> e"
  proof (rule ccontr)
    assume "\<not> 972 \<le> e"
    then have "e + (1024 - e) = 1024" "53 \<le> 1024 - e" by simp_all
    then obtain k where k: "e + k = 1024" "53 \<le> k" by blast
    have "(2::nat) ^ 1024 = 2 ^ e * 2 ^ k" by (simp only: k(1)[symmetric] power_add)
    then have "2 ^ e * 2 ^ k \<le> m" using big by (simp only:)
    then have "(2 ^ e * 2 ^ k) div 2 ^ e \<le> m div 2 ^ e" by (rule div_le_mono)
    then have "(2::nat) ^ k \<le> q" by (simp add: q_def)
    moreover have "(2::nat) ^ 53 \<le> 2 ^ k" using k(2) by (intro power_increasing) simp_all
    ultimately show False using q_lt by linarith
  qed
  then obtain d where d: "e = 972 + d" using le_Suc_ex by blast
  from e_ge q_ge have "2 ^ 52 \<le> q" by simp
  then have "2 ^ 52 * 2 ^ e \<le> q * 2 ^ e" by (rule mult_le_mono1)
  moreover have "(2::nat) ^ 1024 \<le> 2 ^ 52 * 2 ^ e"
  proof -
    have "(2::nat) ^ 52 * 2 ^ e = 2 ^ (1024 + d)" by (simp only: d power_add[symmetric]) simp
    moreover have "(2::nat) ^ 1024 \<le> 2 ^ (1024 + d)" by (intro power_increasing) simp_all
    ultimately show ?thesis by (simp only:)
  qed
  ultimately have low: "2 ^ 1024 \<le> q * 2 ^ e" by (rule order_trans[rotated])
  define q' where
    "q' = (if 2 ^ e < 2 * (m mod 2 ^ e) \<or> (2 * (m mod 2 ^ e) = 2 ^ e \<and> odd q) then q + 1 else q)"
  have "q \<le> q'" by (simp add: q'_def)
  then have "q * 2 ^ e \<le> q' * 2 ^ e" by (rule mult_le_mono1)
  with low have "2 ^ 1024 \<le> q' * 2 ^ e" by (rule order_trans)
  then have no: "\<not> q' * 2 ^ e < 2 ^ 1024" by (simp only: not_less)
  have "round_to_double m = (if q' * 2 ^ e < 2 ^ 1024 then Some (q' * 2 ^ e) else None)"
    by (simp only: round_to_double_def Let_def e_def[symmetric] q_def[symmetric] q'_def[symmetric])
  with no show ?thesis by (simp only: if_False)
qed

lemma round_to_double_nearest:
  assumes "round_to_double m = Some v"
  shows "\<exists>q. v = q * 2 ^ excess_bits m \<and> q \<le> 9007199254740992
         \<and> 2 * v \<le> 2 * m + 2 ^ excess_bits m \<and> 2 * m \<le> 2 * v + 2 ^ excess_bits m
         \<and> (0 < excess_bits m \<and> (2 * v = 2 * m + 2 ^ excess_bits m \<or> 2 * m = 2 * v + 2 ^ excess_bits m)
              \<longrightarrow> even q)"
proof -
  define P where "P = (2::nat) ^ excess_bits m"
  define q where "q = m div P"
  define r where "r = m mod P"
  have m: "m = q * P + r" unfolding q_def r_def by (rule div_mult_mod_eq[symmetric])
  have r: "r < P" unfolding r_def P_def by simp
  have q: "q < 9007199254740992"
    using excess_bits_significand[of m] by (simp add: q_def P_def)
  have Ppos: "0 < excess_bits m \<Longrightarrow> even P" by (simp add: P_def)
  show ?thesis
  proof (cases "P < 2 * r \<or> (2 * r = P \<and> odd q)")
    case True
    with assms have v: "v = (q + 1) * P"
      unfolding round_to_double_def Let_def P_def[symmetric] q_def[symmetric] r_def[symmetric]
      by (simp split: if_splits)
    then have v': "v = q * P + P" by (simp add: algebra_simps)
    have tie: "2 * v = 2 * m + P \<or> 2 * m = 2 * v + P \<Longrightarrow> even (q + 1)"
      using True m r v' by auto
    have "v = (q + 1) * P \<and> q + 1 \<le> 9007199254740992 \<and> 2 * v \<le> 2 * m + P \<and> 2 * m \<le> 2 * v + P
        \<and> (0 < excess_bits m \<and> (2 * v = 2 * m + P \<or> 2 * m = 2 * v + P) \<longrightarrow> even (q + 1))"
      using True m r v v' q tie by auto
    then show ?thesis unfolding P_def by blast
  next
    case False
    with assms have v: "v = q * P"
      unfolding round_to_double_def Let_def P_def[symmetric] q_def[symmetric] r_def[symmetric]
      by (simp split: if_splits)
    have tie: "2 * v = 2 * m + P \<or> 2 * m = 2 * v + P \<Longrightarrow> even q"
      using False m r v by auto
    have "v = q * P \<and> q \<le> 9007199254740992 \<and> 2 * v \<le> 2 * m + P \<and> 2 * m \<le> 2 * v + P
        \<and> (0 < excess_bits m \<and> (2 * v = 2 * m + P \<or> 2 * m = 2 * v + P) \<longrightarrow> even q)"
      using False m r v q tie by auto
    then show ?thesis unfolding P_def by blast
  qed
qed

text \<open>
  A decimal integer followed by anything that does not go on with a digit (and is not the
  \<^verbatim>\<open>x\<close> of a \<^verbatim>\<open>0x\<close>) is read as the integer.
\<close>

lemma decimal_digit: "48 \<le> c \<and> c \<le> 57 \<Longrightarrow> is_digit_of 10 c \<and> \<not> is_white_space c \<and> c \<noteq> 45 \<and> c \<noteq> 43 \<and> c \<noteq> 120 \<and> c \<noteq> 88"
  by (auto simp add: is_digit_of_def digit_value_def is_white_space_def)

lemma is_digit_of_10: "is_digit_of 10 c \<longleftrightarrow> 48 \<le> c \<and> c \<le> 57"
  by (auto simp add: is_digit_of_def digit_value_def)

lemma strip_prefix_decimal:
  assumes "ds \<noteq> []" "\<forall>c\<in>set ds. 48 \<le> c \<and> c \<le> 57"
    and "\<not> (ds = [48] \<and> rest \<noteq> [] \<and> (hd rest = 120 \<or> hd rest = 88))"
  shows "strip_prefix (ds @ rest) = (10, ds @ rest)"
proof (cases ds)
  case Nil
  with assms(1) show ?thesis by simp
next
  case (Cons c cs)
  show ?thesis
  proof (cases cs)
    case Nil
    show ?thesis
    proof (cases rest)
      case Nil
      with Cons \<open>cs = []\<close> show ?thesis by simp
    next
      case (Cons d rs)
      with assms(3) \<open>ds = c # cs\<close> \<open>cs = []\<close> show ?thesis by auto
    qed
  next
    case (Cons c2 cs2)
    with assms(2) \<open>ds = c # cs\<close> have "c2 \<noteq> 120 \<and> c2 \<noteq> 88" using decimal_digit[of c2] by simp
    with Cons \<open>ds = c # cs\<close> show ?thesis by simp
  qed
qed

lemma parseInt_decimal_tail:
  assumes ds: "ds \<noteq> []" "\<forall>c\<in>set ds. 48 \<le> c \<and> c \<le> 57"
    and rest: "rest = [] \<or> \<not> (48 \<le> hd rest \<and> hd rest \<le> 57)"
    and nohex: "\<not> (ds = [48] \<and> rest \<noteq> [] \<and> (hd rest = 120 \<or> hd rest = 88))"
  shows "parseInt (ds @ rest) = parseInt ds"
    and "parseInt (ds @ rest) \<noteq> None"
proof -
  from ds obtain c cs where c: "ds = c # cs" by (cases ds) auto
  with ds(2) have hd: "\<not> is_white_space c" "c \<noteq> 45" "c \<noteq> 43" using decimal_digit[of c] by simp_all
  have sign: "strip_sign (dropWhile is_white_space (ds @ rest)) = (False, ds @ rest)"
    "strip_sign (dropWhile is_white_space ds) = (False, ds)"
    using hd by (simp_all add: c)
  have pre: "strip_prefix (ds @ rest) = (10, ds @ rest)"
    using strip_prefix_decimal[OF ds nohex] .
  have pre0: "strip_prefix ds = (10, ds)"
    using strip_prefix_decimal[OF ds, of "[]"] by simp
  have all: "\<forall>c\<in>set ds. is_digit_of 10 c" using ds(2) by (simp add: is_digit_of_10)
  have tw0: "takeWhile (is_digit_of 10) ds = ds" using all by simp
  have "takeWhile (is_digit_of 10) rest = []"
    using rest by (cases rest) (auto simp add: is_digit_of_10)
  then have tw: "takeWhile (is_digit_of 10) (ds @ rest) = ds"
    using all by (simp add: takeWhile_append2)
  show "parseInt (ds @ rest) = parseInt ds"
    by (simp add: parseInt_def sign pre pre0 tw tw0)
  show "parseInt (ds @ rest) \<noteq> None"
    using ds(1) by (simp add: parseInt_def sign pre tw)
qed

text \<open>White space beyond ASCII: U+00A0 and U+FEFF before the digits.\<close>

lemma parseInt_unicode_white_space:
  "parseInt (0xA0 # code_units ''1'') = Some (Num 1)"
  "parseInt (0xFEFF # 0x2003 # code_units ''1'') = Some (Num 1)"
  by (simp_all add: parseInt_def code_units_def is_white_space_def is_digit_of_def digit_value_def digits_value_def
      round_to_double_def excess_bits.simps Let_def)

text \<open>Above \<open>2^53\<close> the number read is rounded to a double, ties to even.\<close>

lemma parseInt_rounds:
  "parseInt (code_units ''9007199254740992'') = Some (Num 9007199254740992)"
  "parseInt (code_units ''9007199254740993'') = Some (Num 9007199254740992)"
  "parseInt (code_units ''9007199254740995'') = Some (Num 9007199254740996)"
  "parseInt (code_units ''-9007199254740997'') = Some (Num (- 9007199254740996))"
  by (simp_all add: parseInt_def code_units_def is_white_space_def is_digit_of_def digit_value_def digits_value_def
      round_to_double_def excess_bits.simps Let_def)

lemma map_of_assign: "map_of (assign k v ps) = (map_of ps)(k \<mapsto> v)"
  by (induction k v ps rule: assign.induct) auto

lemma get_prop_set_prop:
  "get_prop (set_prop j k v) k' = (if k' = k then Some v else get_prop j k')"
  by (simp add: get_prop_def set_prop_def map_of_assign)

lemma elems_set_prop: "elems (set_prop j k v) = elems j"
  by (simp add: set_prop_def)

lemma keys_assign: "fst ` set (assign k v ps) = insert k (fst ` set ps)"
  by (induction k v ps rule: assign.induct) auto

lemma starts_with_iff: "starts_with s t \<longleftrightarrow> (\<exists>q. s = t @ q)"
  by (induction s t rule: starts_with.induct) auto

lemma str_includes_iff: "str_includes s t \<longleftrightarrow> (\<exists>p q. s = p @ t @ q)"
proof (induction s)
  case Nil
  then show ?case by auto
next
  case (Cons d s)
  show ?case
  proof
    assume "str_includes (d # s) t"
    then consider "starts_with (d # s) t" | "str_includes s t" by auto
    then show "\<exists>p q. d # s = p @ t @ q"
    proof cases
      case 1
      then obtain q where "d # s = t @ q" using starts_with_iff by blast
      then have "d # s = [] @ t @ q" by simp
      then show ?thesis by blast
    next
      case 2
      then obtain p q where "s = p @ t @ q" using Cons.IH by blast
      then have "d # s = (d # p) @ t @ q" by simp
      then show ?thesis by blast
    qed
  next
    assume "\<exists>p q. d # s = p @ t @ q"
    then obtain p q where pq: "d # s = p @ t @ q" by blast
    show "str_includes (d # s) t"
    proof (cases p)
      case Nil
      with pq have "starts_with (d # s) t" using starts_with_iff by auto
      then show ?thesis by simp
    next
      case (Cons a p')
      with pq have "s = p' @ t @ q" by simp
      then have "str_includes s t" using Cons.IH by blast
      then show ?thesis by simp
    qed
  qed
qed

lemma findIndex_None_iff: "findIndex p xs = None \<longleftrightarrow> (\<forall>x\<in>set xs. \<not> p x)"
  by (induction xs) (auto split: option.splits)

lemma findIndex_Some:
  "findIndex p xs = Some i \<Longrightarrow>
     \<exists>pre post. xs = pre @ (xs ! i) # post \<and> length pre = i \<and> (\<forall>x\<in>set pre. \<not> p x) \<and> p (xs ! i)"
proof (induction xs arbitrary: i)
  case Nil
  then show ?case by simp
next
  case (Cons x xs)
  show ?case
  proof (cases "p x")
    case True
    with Cons.prems have "i = 0" by simp
    with True have "x # xs = [] @ ((x # xs) ! i) # xs \<and> length ([]::'a list) = i \<and> (\<forall>y\<in>set []. \<not> p y) \<and> p ((x # xs) ! i)"
      by simp
    then show ?thesis by blast
  next
    case False
    with Cons.prems obtain i' where i': "findIndex p xs = Some i'" "i = Suc i'"
      by (auto split: option.splits)
    from Cons.IH[OF i'(1)] obtain pre post where
      "xs = pre @ (xs ! i') # post" "length pre = i'" "\<forall>y\<in>set pre. \<not> p y" "p (xs ! i')"
      by blast
    with False i' have "x # xs = (x # pre) @ ((x # xs) ! i) # post \<and> length (x # pre) = i \<and>
        (\<forall>y\<in>set (x # pre). \<not> p y) \<and> p ((x # xs) ! i)"
      by simp
    then show ?thesis by blast
  qed
qed

lemma splice1_decomp: "length pre = i \<Longrightarrow> splice1 i (pre @ x # post) = pre @ post"
  by (simp add: splice1_def)

lemma filter_throwing_total:
  "\<forall>x\<in>set xs. p x = Inr (q x) \<Longrightarrow> filter_throwing p xs = Inr (filter q xs)"
  by (induction xs) auto

lemma filter_throwing_Inl_iff:
  "(\<exists>e. filter_throwing p xs = Inl e) \<longleftrightarrow> (\<exists>x\<in>set xs. \<exists>e. p x = Inl e)"
  by (induction xs) (auto split: sum.splits)

lemma filter_assign_id_timestamp:
  "k = ''id'' \<or> k = ''timestamp'' \<Longrightarrow>
     filter (\<lambda>p. fst p \<noteq> ''id'' \<and> fst p \<noteq> ''timestamp'') (assign k v ps) =
     filter (\<lambda>p. fst p \<noteq> ''id'' \<and> fst p \<noteq> ''timestamp'') ps"
  by (induction k v ps rule: assign.induct) auto

section \<open>Facts about runs\<close>

lemma run_Cons_fst: "fst (run s (r # rs)) = fst (run (fst (step s r)) rs)"
  by (simp add: case_prod_beta)

lemma run_Cons_snd: "snd (run s (r # rs)) = snd (step s r) # snd (run (fst (step s r)) rs)"
  by (simp add: case_prod_beta)

lemma step_create:
  "is_create r \<Longrightarrow>
     created_id (snd (step s r)) = [nextJokeId s] \<and> nextJokeId (fst (step s r)) = nextJokeId s + 1"
  by (induction r rule: is_create.induct)
     (simp_all add: handleRequestForPOSTJoke_def Let_def created_id_def get_prop_set_prop)

lemma search_not_created: "created_id (handleJokesSearch s t) = []"
  by (simp add: handleJokesSearch_def created_id_def split: option.splits sum.splits)

lemma delete_not_created:
  "created_id (Responded (snd (handleDeleteJoke s p))) = []
   \<and> nextJokeId (fst (handleDeleteJoke s p)) = nextJokeId s"
  by (simp add: handleDeleteJoke_def created_id_def split: option.splits)

lemma step_other:
  "\<not> is_create r \<Longrightarrow>
     created_id (snd (step s r)) = [] \<and> nextJokeId (fst (step s r)) = nextJokeId s"
proof (cases r)
  case (DeleteJoke p)
  then show ?thesis using delete_not_created[of s p] by (simp add: case_prod_beta)
next
  case (JokesSearch t)
  then show ?thesis by (simp add: search_not_created)
next
  case (PostJoke b now)
  assume "\<not> is_create r"
  with PostJoke have "b = BodyUndefined \<or> b = BodyNull" by (cases b) auto
  with PostJoke show ?thesis
    by (auto simp add: handleRequestForPOSTJoke_def created_id_def)
next
  case GetFirstJoke
  then show ?thesis by (simp add: created_id_def handleGetFirstJoke_def split: list.splits)
next
  case (GetJokeById p)
  then show ?thesis
    by (simp add: created_id_def handleGetJokeById_def split: option.splits)
qed (simp_all add: created_id_def handleRoot_def handleGetTime_def handleGetAllJokes_def
      handleDeleteAllJokes_def handleRequestForRandomJoke_def handleReset_def)

lemma map_upt_shift:
  "map (\<lambda>k. n + int k) [0..<Suc m] = n # map (\<lambda>k. (n + 1) + int k) [0..<m]"
proof -
  have "map (\<lambda>k. n + int k) [0..<Suc m] = (n + int 0) # map (\<lambda>k. n + int (Suc k)) [0..<m]"
    by (simp only: map_upt_Suc)
  also have "\<dots> = n # map (\<lambda>k. (n + 1) + int k) [0..<m]"
    by (simp add: algebra_simps)
  finally show ?thesis .
qed

lemma run_created:
  "created_ids (snd (run s rs)) = map (\<lambda>k. nextJokeId s + int k) [0..<length (filter is_create rs)]
   \<and> nextJokeId (fst (run s rs)) = nextJokeId s + int (length (filter is_create rs))"
proof (induction rs arbitrary: s)
  case Nil
  then show ?case by (simp add: created_ids_def)
next
  case (Cons r rs)
  let ?s1 = "fst (step s r)"
  let ?m = "length (filter is_create rs)"
  have IH1: "created_ids (snd (run ?s1 rs)) = map (\<lambda>k. nextJokeId ?s1 + int k) [0..<?m]"
    and IH2: "nextJokeId (fst (run ?s1 rs)) = nextJokeId ?s1 + int ?m"
    using Cons.IH[of ?s1] by blast+
  have outs: "created_ids (snd (run s (r # rs))) =
      created_id (snd (step s r)) @ created_ids (snd (run ?s1 rs))"
    by (simp add: run_Cons_snd created_ids_def del: run.simps)
  have last: "nextJokeId (fst (run s (r # rs))) = nextJokeId ?s1 + int ?m"
    using IH2 by (simp only: run_Cons_fst)
  show ?case
  proof (cases "is_create r")
    case True
    then have len: "length (filter is_create (r # rs)) = Suc ?m" by simp
    from True step_create[of r s] have st: "created_id (snd (step s r)) = [nextJokeId s]"
      "nextJokeId ?s1 = nextJokeId s + 1" by blast+
    have "created_ids (snd (run s (r # rs))) =
        nextJokeId s # map (\<lambda>k. (nextJokeId s + 1) + int k) [0..<?m]"
      using outs IH1 st by simp
    then have "created_ids (snd (run s (r # rs))) = map (\<lambda>k. nextJokeId s + int k) [0..<Suc ?m]"
      by (simp only: map_upt_shift)
    moreover have "nextJokeId (fst (run s (r # rs))) = nextJokeId s + int (Suc ?m)"
      using last st by simp
    ultimately show ?thesis by (simp only: len)
  next
    case False
    then have len: "length (filter is_create (r # rs)) = ?m" by simp
    from False step_other[of r s] have st: "created_id (snd (step s r)) = []"
      "nextJokeId ?s1 = nextJokeId s" by blast+
    have "created_ids (snd (run s (r # rs))) = map (\<lambda>k. nextJokeId s + int k) [0..<?m]"
      using outs IH1 st by simp
    moreover have "nextJokeId (fst (run s (r # rs))) = nextJokeId s + int ?m"
      using last st by simp
    ultimately show ?thesis by (simp only: len)
  qed
qed

lemma consecutive_sorted: "sorted_wrt (<) (map (\<lambda>k. (n::int) + int k) [0..<m])"
  by (simp add: sorted_wrt_map sorted_wrt_iff_nth_less)

lemma distinct_map_splice1: "distinct (map f xs) \<Longrightarrow> distinct (map f (splice1 i xs))"
proof -
  assume d: "distinct (map f xs)"
  have "map f xs = take i (map f xs) @ drop i (map f xs)" by simp
  with d have "distinct (take i (map f xs) @ drop i (map f xs))" by simp
  then have a: "distinct (take i (map f xs))" and b: "distinct (drop i (map f xs))"
    and c: "set (take i (map f xs)) \<inter> set (drop i (map f xs)) = {}"
    by (simp_all only: distinct_append)
  have sub: "set (drop (Suc i) (map f xs)) \<subseteq> set (drop i (map f xs))"
    by (rule set_drop_subset_set_drop) simp
  have "distinct (drop (Suc i) (map f xs))" using d by simp
  with a c sub have "distinct (take i (map f xs) @ drop (Suc i) (map f xs))"
    by (simp only: distinct_append) blast
  then show ?thesis by (simp add: splice1_def take_map drop_map)
qed

lemma set_splice1: "set (splice1 i xs) \<subseteq> set xs"
  using set_take_subset[of i xs] set_drop_subset[of "Suc i" xs] by (auto simp add: splice1_def)

lemma delete_keeps_inv: "store_inv s \<Longrightarrow> store_inv (fst (handleDeleteJoke s p))"
proof -
  assume inv: "store_inv s"
  have "fst (handleDeleteJoke s p) = s \<or>
      (\<exists>i. fst (handleDeleteJoke s p) = s\<lparr>allJokes := splice1 i (allJokes s)\<rparr>)"
    by (auto simp add: handleDeleteJoke_def split: option.splits)
  then show ?thesis
  proof
    assume "fst (handleDeleteJoke s p) = s"
    with inv show ?thesis by simp
  next
    assume "\<exists>i. fst (handleDeleteJoke s p) = s\<lparr>allJokes := splice1 i (allJokes s)\<rparr>"
    then obtain i where st: "fst (handleDeleteJoke s p) = s\<lparr>allJokes := splice1 i (allJokes s)\<rparr>"
      by blast
    from inv have "\<forall>j\<in>set (splice1 i (allJokes s)). \<exists>n<nextJokeId s. joke_id j = Some (JNum n)"
      using set_splice1[of i "allJokes s"] unfolding store_inv_def by blast
    with inv show ?thesis
      unfolding st store_inv_def by (simp add: distinct_map_splice1)
  qed
qed

lemma post_keeps_inv: "store_inv s \<Longrightarrow> store_inv (fst (handleRequestForPOSTJoke s b now))"
proof (cases b)
  case (BodyObject j)
  assume inv: "store_inv s"
  let ?j = "set_prop (set_prop j ''id'' (JNum (nextJokeId s))) ''timestamp'' (JStr now)"
  have st: "fst (handleRequestForPOSTJoke s b now) =
      s\<lparr>nextJokeId := nextJokeId s + 1, allJokes := allJokes s @ [?j]\<rparr>"
    using BodyObject by (simp add: handleRequestForPOSTJoke_def Let_def)
  have id: "joke_id ?j = Some (JNum (nextJokeId s))"
    by (simp add: joke_id_def get_prop_set_prop)
  from inv have old: "\<forall>x\<in>set (allJokes s). \<exists>n<nextJokeId s. joke_id x = Some (JNum n)"
    by (simp add: store_inv_def)
  then have fresh: "joke_id ?j \<notin> joke_id ` set (allJokes s)"
    using id by force
  from old have bound: "\<forall>x\<in>set (allJokes s). \<exists>n<nextJokeId s + 1. joke_id x = Some (JNum n)"
    by force
  from inv fresh bound id show ?thesis
    unfolding st store_inv_def by simp
qed (simp_all add: handleRequestForPOSTJoke_def)

lemma reset_keeps_inv: "store_inv s \<Longrightarrow> store_inv (fst (handleReset s))"
  by (force simp add: handleReset_def store_inv_def)

lemma step_keeps_inv: "store_inv s \<Longrightarrow> store_inv (fst (step s r))"
proof (cases r)
  case (DeleteJoke p)
  assume "store_inv s"
  with DeleteJoke show ?thesis using delete_keeps_inv[of s p] by (simp add: case_prod_beta)
next
  case DeleteAllJokes
  assume "store_inv s"
  with DeleteAllJokes show ?thesis by (simp add: handleDeleteAllJokes_def store_inv_def)
next
  case (PostJoke b now)
  assume "store_inv s"
  with PostJoke show ?thesis using post_keeps_inv[of s b now] by (simp add: case_prod_beta)
next
  case ResetJokes
  assume "store_inv s"
  with ResetJokes show ?thesis using reset_keeps_inv[of s] by (simp add: case_prod_beta)
qed simp_all

lemma run_keeps_inv: "store_inv s \<Longrightarrow> store_inv (fst (run s rs))"
proof (induction rs arbitrary: s)
  case Nil
  then show ?case by simp
next
  case (Cons r rs)
  from Cons.prems have "store_inv (fst (step s r))" by (rule step_keeps_inv)
  then have "store_inv (fst (run (fst (step s r)) rs))" by (rule Cons.IH)
  then show ?case by (simp only: run_Cons_fst)
qed

lemma step_keeps_original: "originalJokesList (fst (step s r)) = originalJokesList s"
  by (cases r)
     (simp_all add: case_prod_beta handleDeleteJoke_def handleDeleteAllJokes_def
        handleRequestForPOSTJoke_def handleReset_def Let_def split: option.splits body.splits)

lemma run_keeps_original: "originalJokesList (fst (run s rs)) = originalJokesList s"
proof (induction rs arbitrary: s)
  case Nil
  then show ?case by simp
next
  case (Cons r rs)
  have "originalJokesList (fst (run s (r # rs))) = originalJokesList (fst (step s r))"
    using Cons.IH[of "fst (step s r)"] by (simp only: run_Cons_fst)
  then show ?case by (simp only: step_keeps_original)
qed

lemma run_append_fst: "fst (run s (rs @ rs')) = fst (run (fst (run s rs)) rs')"
proof (induction rs arbitrary: s)
  case Nil
  then show ?case by simp
next
  case (Cons r rs)
  have "fst (run s ((r # rs) @ rs')) = fst (run (fst (step s r)) (rs @ rs'))"
    by (simp only: append_Cons run_Cons_fst)
  then show ?case by (simp only: Cons.IH run_Cons_fst)
qed

lemma run_append_snd:
  "snd (run s (rs @ rs')) = snd (run s rs) @ snd (run (fst (run s rs)) rs')"
proof (induction rs arbitrary: s)
  case Nil
  then show ?case by simp
next
  case (Cons r rs)
  have "snd (run s ((r # rs) @ rs')) = snd (step s r) # snd (run (fst (step s r)) (rs @ rs'))"
    by (simp only: append_Cons run_Cons_snd)
  then show ?case by (simp only: Cons.IH run_Cons_fst run_Cons_snd append_Cons)
qed

section \<open>Facts about the search\<close>

lemma search_bad_request_iff:
  "(\<exists>r. handleJokesSearch s t = Responded r \<and> status r = 400) \<longleftrightarrow> (t = None \<or> t = Some [])"
  by (auto simp add: handleJokesSearch_def split: option.splits sum.splits)

lemma search_throws_iff:
  "(\<exists>e. handleJokesSearch s (Some t) = Threw e) \<longleftrightarrow>
     t \<noteq> [] \<and> (\<exists>j\<in>set (allJokes s). \<exists>e. matches t j = Inl e)"
proof (cases "t = []")
  case True
  then show ?thesis by (simp add: handleJokesSearch_def)
next
  case False
  have "(\<exists>e. handleJokesSearch s (Some t) = Threw e) \<longleftrightarrow>
      (\<exists>e. filter_throwing (matches t) (allJokes s) = Inl e)"
    using False by (auto simp add: handleJokesSearch_def split: sum.splits)
  with False show ?thesis by (simp only: filter_throwing_Inl_iff) simp
qed

lemma search_wellformed:
  assumes "t \<noteq> []"
    and "\<forall>j\<in>set (allJokes s). \<exists>a b.
           get_prop j ''setup'' = Some (JStr a) \<and> get_prop j ''punchline'' = Some (JStr b)"
  shows "handleJokesSearch s (Some t) =
     Responded \<lparr>status = 200, payload = JsonArray (map Some
       (filter (\<lambda>j. \<exists>a b. get_prop j ''setup'' = Some (JStr a)
                   \<and> get_prop j ''punchline'' = Some (JStr b)
                   \<and> ((\<exists>p q. a = p @ t @ q) \<or> (\<exists>p q. b = p @ t @ q)))
          (allJokes s)))\<rparr>"
proof -
  let ?q = "\<lambda>j. \<exists>a b. get_prop j ''setup'' = Some (JStr a)
                   \<and> get_prop j ''punchline'' = Some (JStr b)
                   \<and> ((\<exists>p q. a = p @ t @ q) \<or> (\<exists>p q. b = p @ t @ q))"
  have "\<forall>j\<in>set (allJokes s). matches t j = Inr (?q j)"
  proof
    fix j assume "j \<in> set (allJokes s)"
    with assms(2) obtain a b where
      ab: "get_prop j ''setup'' = Some (JStr a)" "get_prop j ''punchline'' = Some (JStr b)"
      by blast
    then have "matches t j = Inr (str_includes a t \<or> str_includes b t)"
      by (cases "str_includes a t") (simp_all add: matches_def)
    with ab show "matches t j = Inr (?q j)"
      by (simp add: str_includes_iff)
  qed
  then have "filter_throwing (matches t) (allJokes s) = Inr (filter ?q (allJokes s))"
    by (rule filter_throwing_total)
  with assms(1) show ?thesis by (simp add: handleJokesSearch_def)
qed

lemma only_search_throws:
  assumes "snd (step s r) = Threw e"
  shows "\<exists>t. r = JokesSearch (Some t) \<and> t \<noteq> [] \<and> (\<exists>j\<in>set (allJokes s). \<exists>e'. matches t j = Inl e')"
proof (cases r)
  case (JokesSearch q)
  with assms have thr: "handleJokesSearch s q = Threw e" by simp
  then obtain t where q: "q = Some t"
    by (cases q) (simp_all add: handleJokesSearch_def)
  with thr have "\<exists>e. handleJokesSearch s (Some t) = Threw e" by blast
  then have "t \<noteq> [] \<and> (\<exists>j\<in>set (allJokes s). \<exists>e'. matches t j = Inl e')"
    using search_throws_iff[of s t] by blast
  with JokesSearch q show ?thesis by blast
qed (use assms in \<open>simp_all add: case_prod_beta\<close>)

lemma search_examples:
  "handleJokesSearch (init [fish]) (Some ''Dam'') =
     Responded \<lparr>status = 200, payload = JsonArray [Some fish]\<rparr>"
  "handleJokesSearch (init [fish]) (Some ''dam'') =
     Responded \<lparr>status = 200, payload = JsonArray []\<rparr>"
  "handleJokesSearch (init [fish]) (Some '''') =
     Responded \<lparr>status = 400, payload = Text ''missing searchTerm query parameter''\<rparr>"
  "handleJokesSearch (init [fish]) None =
     Responded \<lparr>status = 400, payload = Text ''missing searchTerm query parameter''\<rparr>"
  by (simp_all add: init_def fish_def handleJokesSearch_def matches_def get_prop_def)

section \<open>The first joke\<close>

lemma handleGetFirstJoke_first_or_404:
  "(allJokes s \<noteq> [] \<longrightarrow> handleGetFirstJoke s = \<lparr>status = 200, payload = JsonJoke (hd (allJokes s))\<rparr>)
   \<and> (allJokes s = [] \<longrightarrow> status (handleGetFirstJoke s) = 404)"
  by (auto simp add: handleGetFirstJoke_def split: list.splits)

section \<open>The routes with an id\<close>

text \<open>
  What \<^verbatim>\<open>handleGetJokeById\<close> and \<^verbatim>\<open>handleDeleteJoke\<close> do with the number that
  \<^verbatim>\<open>parseInt\<close> reads from the id.
\<close>

lemma handleGetJokeById_cases:
  "(status (handleGetJokeById s param) = 400 \<longleftrightarrow>
      parseInt (case param of None \<Rightarrow> [] | Some x \<Rightarrow> x) = None)
   \<and> (\<forall>n. parseInt (case param of None \<Rightarrow> [] | Some x \<Rightarrow> x) = Some n \<longrightarrow>
        (if \<exists>j\<in>set (allJokes s). get_prop j ''id'' = Some (number_json n)
         then \<exists>j. handleGetJokeById s param = \<lparr>status = 200, payload = JsonJoke j\<rparr>
                \<and> j \<in> set (allJokes s) \<and> get_prop j ''id'' = Some (number_json n)
         else \<exists>msg. handleGetJokeById s param =
                \<lparr>status = 404, payload = JsonObject
                   [(''outcome'', JStr ''failure''), (''message'', JStr msg), (''soughtId'', number_json n)]\<rparr>))"
proof (cases "parseInt (case param of None \<Rightarrow> [] | Some x \<Rightarrow> x)")
  case None
  then show ?thesis by (simp add: handleGetJokeById_def)
next
  case (Some n)
  show ?thesis
  proof (cases "find (id_is (Some n)) (allJokes s)")
    case None
    then have no: "\<not> (\<exists>j\<in>set (allJokes s). get_prop j ''id'' = Some (number_json n))"
      by (simp add: find_None_iff id_is_def)
    from None Some have "handleGetJokeById s param =
        \<lparr>status = 404, payload = JsonObject
           [(''outcome'', JStr ''failure''), (''message'', JStr ''can't find joke with that id.''),
            (''soughtId'', number_json n)]\<rparr>"
      by (simp add: handleGetJokeById_def)
    with no Some show ?thesis by simp
  next
    case (Some j)
    then have j: "j \<in> set (allJokes s)" "get_prop j ''id'' = Some (number_json n)"
      by (auto simp add: find_Some_iff id_is_def)
    from Some \<open>parseInt (case param of None \<Rightarrow> [] | Some x \<Rightarrow> x) = Some n\<close>
    have "handleGetJokeById s param = \<lparr>status = 200, payload = JsonJoke j\<rparr>"
      by (simp add: handleGetJokeById_def)
    with j \<open>parseInt (case param of None \<Rightarrow> [] | Some x \<Rightarrow> x) = Some n\<close> show ?thesis
      by auto
  qed
qed

lemma handleDeleteJoke_cases:
  "handleDeleteJoke s None = (s, \<lparr>status = 404, payload = Text ''missing id''\<rparr>)
   \<and> (if \<exists>j\<in>set (allJokes s). id_is (parseInt x) j
      then \<exists>pre j post. allJokes s = pre @ j # post
             \<and> (\<forall>y\<in>set pre. \<not> id_is (parseInt x) y) \<and> id_is (parseInt x) j
             \<and> handleDeleteJoke s (Some x) =
                 (s\<lparr>allJokes := pre @ post\<rparr>, \<lparr>status = 200, payload = JsonJoke j\<rparr>)
      else fst (handleDeleteJoke s (Some x)) = s \<and> status (snd (handleDeleteJoke s (Some x))) = 404)"
proof -
  have none: "handleDeleteJoke s None = (s, \<lparr>status = 404, payload = Text ''missing id''\<rparr>)"
    by (simp add: handleDeleteJoke_def)
  show ?thesis
  proof (cases "findIndex (id_is (parseInt x)) (allJokes s)")
    case None
    then have "\<not> (\<exists>j\<in>set (allJokes s). id_is (parseInt x) j)"
      by (simp add: findIndex_None_iff)
    with None none show ?thesis by (simp add: handleDeleteJoke_def)
  next
    case (Some i)
    from findIndex_Some[OF Some] obtain pre post where d:
      "allJokes s = pre @ (allJokes s ! i) # post" "length pre = i"
      "\<forall>y\<in>set pre. \<not> id_is (parseInt x) y" "id_is (parseInt x) (allJokes s ! i)"
      by blast
    have sp: "splice1 i (allJokes s) = pre @ post"
      using splice1_decomp[OF d(2), of "allJokes s ! i" post] d(1) by simp
    have ex: "\<exists>j\<in>set (allJokes s). id_is (parseInt x) j"
      using d(1) d(4) by (metis in_set_conv_decomp)
    have "handleDeleteJoke s (Some x) =
        (s\<lparr>allJokes := pre @ post\<rparr>, \<lparr>status = 200, payload = JsonJoke (allJokes s ! i)\<rparr>)"
      using Some sp by (simp add: handleDeleteJoke_def)
    with d ex none show ?thesis by auto
  qed
qed

lemma handleGetJokeById_ignores_tail:
  assumes "ds \<noteq> []" "\<forall>c\<in>set ds. 48 \<le> c \<and> c \<le> 57"
    and "rest = [] \<or> \<not> (48 \<le> hd rest \<and> hd rest \<le> 57)"
    and "\<not> (ds = [48] \<and> rest \<noteq> [] \<and> (hd rest = 120 \<or> hd rest = 88))"
  shows "handleGetJokeById s (Some (ds @ rest)) = handleGetJokeById s (Some ds)"
    and "status (handleGetJokeById s (Some (ds @ rest))) \<noteq> 400"
proof -
  show "handleGetJokeById s (Some (ds @ rest)) = handleGetJokeById s (Some ds)"
    by (simp add: handleGetJokeById_def parseInt_decimal_tail(1)[OF assms])
  from parseInt_decimal_tail(2)[OF assms] obtain n where "parseInt (ds @ rest) = Some n"
    by blast
  then show "status (handleGetJokeById s (Some (ds @ rest))) \<noteq> 400"
    by (simp add: handleGetJokeById_def split: option.splits)
qed

lemma handleDeleteJoke_ignores_tail:
  assumes "ds \<noteq> []" "\<forall>c\<in>set ds. 48 \<le> c \<and> c \<le> 57"
    and "rest = [] \<or> \<not> (48 \<le> hd rest \<and> hd rest \<le> 57)"
    and "\<not> (ds = [48] \<and> rest \<noteq> [] \<and> (hd rest = 120 \<or> hd rest = 88))"
  shows "handleDeleteJoke s (Some (ds @ rest)) = handleDeleteJoke s (Some ds)"
  by (simp add: handleDeleteJoke_def parseInt_decimal_tail(1)[OF assms])

section \<open>The claims\<close>

text \<open>
  C1. Over any sequence of requests from the start of the process, the ids that the
  successive creates assign are \<open>10000000\<close>, \<open>10000001\<close>, \<dots> in this order, one
  per create, whatever deletes, delete-alls and resets stand between them: they increase
  strictly and none is assigned twice.
\<close>

theorem created_ids_increase:
  "created_ids (snd (run (init seed) rs)) =
     map (\<lambda>k. 10000000 + int k) [0..<length (filter is_create rs)]
   \<and> sorted_wrt (<) (created_ids (snd (run (init seed) rs)))
   \<and> distinct (created_ids (snd (run (init seed) rs)))"
proof -
  have eq: "created_ids (snd (run (init seed) rs)) =
     map (\<lambda>k. 10000000 + int k) [0..<length (filter is_create rs)]"
    using run_created[of "init seed" rs] by (simp add: init_def)
  have srt: "sorted_wrt (<) (created_ids (snd (run (init seed) rs)))"
    unfolding eq by (rule consecutive_sorted)
  then have "distinct (created_ids (snd (run (init seed) rs)))"
    using strict_sorted_iff by blast
  with eq srt show ?thesis by blast
qed


theorem created_ids_increase_witness:
  "created_ids (snd (run (init [fish])
      [PostJoke (BodyObject \<lparr>props = [], elems = None\<rparr>) ''Mon'',
       DeleteJoke (Some (code_units ''10000000'')),
       PostJoke BodyNull ''Mon'',
       DeleteAllJokes,
       PostJoke (BodyObject \<lparr>props = [(''id'', JNum 1)], elems = None\<rparr>) ''Tue'',
       ResetJokes,
       PostJoke (BodyObject \<lparr>props = [], elems = Some [JNum 1]\<rparr>) ''Wed''])) =
     [10000000, 10000001, 10000002]"
  using created_ids_increase [of "[fish]"
      "[PostJoke (BodyObject \<lparr>props = [], elems = None\<rparr>) ''Mon'',
       DeleteJoke (Some (code_units ''10000000'')),
       PostJoke BodyNull ''Mon'',
       DeleteAllJokes,
       PostJoke (BodyObject \<lparr>props = [(''id'', JNum 1)], elems = None\<rparr>) ''Tue'',
       ResetJokes,
       PostJoke (BodyObject \<lparr>props = [], elems = Some [JNum 1]\<rparr>) ''Wed'']"]
  by (simp add: upt_conv_Cons)

text \<open>
  C2. \<^verbatim>\<open>POST /jokes\<close> with an \<^verbatim>\<open>undefined\<close> or \<^verbatim>\<open>null\<close> body answers 400 and leaves the
  state as it was. With any object as body, whatever its fields, it gives the joke the
  current counter value as \<^verbatim>\<open>id\<close>, moves the counter up by one, gives the joke the
  time as \<^verbatim>\<open>timestamp\<close>, puts it at the end of the store and answers 201 with it.
\<close>

theorem post_joke_creates:
  "handleRequestForPOSTJoke s BodyUndefined now =
     (s, \<lparr>status = 400, payload = Text ''where is your joke! it's not in the body, i think''\<rparr>)
   \<and> handleRequestForPOSTJoke s BodyNull now =
     (s, \<lparr>status = 400, payload = Text ''where is your joke! it's not in the body, i think''\<rparr>)
   \<and> (\<exists>j. handleRequestForPOSTJoke s (BodyObject b) now =
          (s\<lparr>nextJokeId := nextJokeId s + 1, allJokes := allJokes s @ [j]\<rparr>,
           \<lparr>status = 201, payload = JsonJoke j\<rparr>)
        \<and> get_prop j ''id'' = Some (JNum (nextJokeId s))
        \<and> get_prop j ''timestamp'' = Some (JStr now))"
  by (simp add: handleRequestForPOSTJoke_def Let_def get_prop_set_prop)

theorem post_joke_creates_witness:
  "handleRequestForPOSTJoke (init [fish]) BodyNull ''Tue'' =
     (init [fish], \<lparr>status = 400, payload = Text ''where is your joke! it's not in the body, i think''\<rparr>)
   \<and> length (allJokes (fst (handleRequestForPOSTJoke (init [fish]) BodyNull ''Tue''))) = 1
   \<and> handleRequestForPOSTJoke (init [fish]) (BodyObject \<lparr>props = [(''setup'', JStr ''Why'')], elems = None\<rparr>) ''Tue'' =
       (\<lparr>originalJokesList = [fish], allJokes = [fish,
           \<lparr>props = [(''setup'', JStr ''Why''), (''id'', JNum 10000000), (''timestamp'', JStr ''Tue'')], elems = None\<rparr>],
          nextJokeId = 10000001\<rparr>,
        \<lparr>status = 201, payload = JsonJoke
           \<lparr>props = [(''setup'', JStr ''Why''), (''id'', JNum 10000000), (''timestamp'', JStr ''Tue'')], elems = None\<rparr>\<rparr>)"
  using post_joke_creates [of "init [fish]" "''Tue''" "\<lparr>props = [(''setup'', JStr ''Why'')], elems = None\<rparr>"]
  by (simp add: init_def handleRequestForPOSTJoke_def set_prop_def Let_def)

text \<open>
  C3. The claim: \<^verbatim>\<open>GET /jokes/{id}\<close> answers 400 for every id that is not an integer. On
  the code, \<^verbatim>\<open>parseInt\<close> stops at the first code unit that is no digit and the handler
  only refuses \<^verbatim>\<open>NaN\<close>: the ids \<^verbatim>\<open>1abc\<close>, \<^verbatim>\<open>1.5\<close>, \<^verbatim>\<open>0x1\<close> and \<^verbatim>\<open>+1\<close> followed by a
  space are answered with the joke of id 1, and \<^verbatim>\<open>-2nd\<close> with 404 and the sought id -2.
\<close>

theorem get_joke_by_id_accepts_non_integers:
  "handleGetJokeById (init [fish]) (Some (code_units ''1abc'')) =
     \<lparr>status = 200, payload = JsonJoke fish\<rparr>
   \<and> handleGetJokeById (init [fish]) (Some (code_units ''1.5'')) =
     \<lparr>status = 200, payload = JsonJoke fish\<rparr>
   \<and> handleGetJokeById (init [fish]) (Some (code_units ''0x1'')) =
     \<lparr>status = 200, payload = JsonJoke fish\<rparr>
   \<and> handleGetJokeById (init [fish]) (Some (code_units ''+1 '')) =
     \<lparr>status = 200, payload = JsonJoke fish\<rparr>
   \<and> handleGetJokeById (init [fish]) (Some (code_units ''-2nd'')) =
     \<lparr>status = 404, payload = JsonObject
        [(''outcome'', JStr ''failure''), (''message'', JStr ''can't find joke with that id.''),
         (''soughtId'', JNum (- 2))]\<rparr>"
  by (simp add: parseInt_def code_units_def is_white_space_def is_digit_of_def digit_value_def digits_value_def
      round_to_double_def excess_bits.simps Let_def
      init_def fish_def get_prop_def handleGetJokeById_def id_is_def)

text \<open>
  C4. The claim: no handler throws, whatever the requests. On the code, a create stores
  a body without \<^verbatim>\<open>setup\<close> as it is, and the next search reads
  \<^verbatim>\<open>j.setup.includes\<close> of it and throws a \<^verbatim>\<open>TypeError\<close>.
\<close>

theorem search_after_schemaless_create_throws:
  "snd (run (init [fish])
      [PostJoke (BodyObject \<lparr>props = [(''type'', JStr ''pun'')], elems = None\<rparr>) ''Mon'',
       JokesSearch (Some ''fish'')]) =
     [Responded \<lparr>status = 201, payload = JsonJoke
        \<lparr>props = [(''type'', JStr ''pun''), (''id'', JNum 10000000), (''timestamp'', JStr ''Mon'')],
           elems = None\<rparr>\<rparr>,
      Threw TypeError]"
  by (simp add: init_def fish_def handleRequestForPOSTJoke_def set_prop_def Let_def
      handleJokesSearch_def matches_def get_prop_def)

text \<open>
  C5. The claim: a search with a non-empty term answers 200 with the jokes whose setup
  or punchline contains the term. On the code, once the store holds a joke whose
  \<^verbatim>\<open>setup\<close> is a number, the search for \<^verbatim>\<open>wall\<close> throws instead of answering with
  the one joke that contains it.
\<close>

theorem search_throws_on_numeric_setup:
  "handleJokesSearch
     \<lparr>originalJokesList = [fish],
        allJokes = [fish,
          \<lparr>props = [(''setup'', JNum 42), (''punchline'', JStr ''wall''),
                    (''id'', JNum 10000000), (''timestamp'', JStr ''Mon'')], elems = None\<rparr>],
        nextJokeId = 10000001\<rparr>
     (Some ''wall'') = Threw TypeError
   \<and> fst (run (init [fish])
        [PostJoke (BodyObject
           \<lparr>props = [(''setup'', JNum 42), (''punchline'', JStr ''wall'')], elems = None\<rparr>) ''Mon'']) =
     \<lparr>originalJokesList = [fish],
        allJokes = [fish,
          \<lparr>props = [(''setup'', JNum 42), (''punchline'', JStr ''wall''),
                    (''id'', JNum 10000000), (''timestamp'', JStr ''Mon'')], elems = None\<rparr>],
        nextJokeId = 10000001\<rparr>"
  by (simp add: init_def fish_def handleRequestForPOSTJoke_def set_prop_def Let_def
      handleJokesSearch_def matches_def get_prop_def)

text \<open>
  C6. The claim: \<^verbatim>\<open>DELETE /jokes/{id}\<close> answers 404 and leaves the store as it is when no
  joke has the requested id. On the code, the id is read by \<^verbatim>\<open>parseInt\<close> and not checked:
  the ids \<^verbatim>\<open>1abc\<close>, \<^verbatim>\<open>0x1\<close> and \<^verbatim>\<open>+1.5\<close> take the joke of id 1 out of the store and
  are answered 200.
\<close>

theorem delete_joke_accepts_non_integers:
  "handleDeleteJoke (init [fish]) (Some (code_units ''1abc'')) =
     (\<lparr>originalJokesList = [fish], allJokes = [], nextJokeId = 10000000\<rparr>,
      \<lparr>status = 200, payload = JsonJoke fish\<rparr>)
   \<and> handleDeleteJoke (init [fish]) (Some (code_units ''0x1'')) =
     (\<lparr>originalJokesList = [fish], allJokes = [], nextJokeId = 10000000\<rparr>,
      \<lparr>status = 200, payload = JsonJoke fish\<rparr>)
   \<and> handleDeleteJoke (init [fish]) (Some (code_units ''+1.5'')) =
     (\<lparr>originalJokesList = [fish], allJokes = [], nextJokeId = 10000000\<rparr>,
      \<lparr>status = 200, payload = JsonJoke fish\<rparr>)"
  by (simp add: parseInt_def code_units_def is_white_space_def is_digit_of_def digit_value_def digits_value_def
      round_to_double_def excess_bits.simps Let_def
      init_def fish_def get_prop_def handleDeleteJoke_def id_is_def splice1_def)

text \<open>
  C7. In every state the process can reach, \<^verbatim>\<open>POST /jokes/reset\<close> answers 200, makes
  the store the data file's list again and leaves the id counter alone; a listing right
  after it answers with the data file's list, in its order.
\<close>

theorem reset_restores_seed:
  "step (fst (run (init seed) rs)) ResetJokes =
     (fst (run (init seed) rs)\<lparr>allJokes := seed\<rparr>,
      Responded \<lparr>status = 200, payload = JsonObject
        [(''outcome'', JStr ''success''), (''message'', JStr ''jokes list has been reset'')]\<rparr>)
   \<and> nextJokeId (fst (step (fst (run (init seed) rs)) ResetJokes)) =
       nextJokeId (fst (run (init seed) rs))
   \<and> snd (run (init seed) (rs @ [ResetJokes, GetAllJokes])) =
       snd (run (init seed) rs) @
       [Responded \<lparr>status = 200, payload = JsonObject
          [(''outcome'', JStr ''success''), (''message'', JStr ''jokes list has been reset'')]\<rparr>,
        Responded \<lparr>status = 200, payload = JsonArray (map Some seed)\<rparr>]"
proof -
  let ?s = "fst (run (init seed) rs)"
  have orig: "originalJokesList ?s = seed"
    by (simp add: run_keeps_original init_def)
  have reset: "step ?s ResetJokes =
     (?s\<lparr>allJokes := seed\<rparr>,
      Responded \<lparr>status = 200, payload = JsonObject
        [(''outcome'', JStr ''success''), (''message'', JStr ''jokes list has been reset'')]\<rparr>)"
    by (simp add: handleReset_def orig)
  have counter: "nextJokeId (fst (step ?s ResetJokes)) = nextJokeId ?s"
    by (simp only: reset) simp
  have "snd (run ?s [ResetJokes, GetAllJokes]) =
       [Responded \<lparr>status = 200, payload = JsonObject
          [(''outcome'', JStr ''success''), (''message'', JStr ''jokes list has been reset'')]\<rparr>,
        Responded \<lparr>status = 200, payload = JsonArray (map Some seed)\<rparr>]"
    by (simp add: handleReset_def orig handleGetAllJokes_def)
  then have listing: "snd (run (init seed) (rs @ [ResetJokes, GetAllJokes])) =
       snd (run (init seed) rs) @
       [Responded \<lparr>status = 200, payload = JsonObject
          [(''outcome'', JStr ''success''), (''message'', JStr ''jokes list has been reset'')]\<rparr>,
        Responded \<lparr>status = 200, payload = JsonArray (map Some seed)\<rparr>]"
    by (simp only: run_append_snd)
  from reset counter listing show ?thesis by blast
qed

theorem reset_restores_seed_witness:
  "snd (run (init [fish])
      ([PostJoke (BodyObject \<lparr>props = [], elems = None\<rparr>) ''Mon'', DeleteJoke (Some (code_units ''1''))]
       @ [ResetJokes, GetAllJokes])) =
     [Responded \<lparr>status = 201, payload = JsonJoke
        \<lparr>props = [(''id'', JNum 10000000), (''timestamp'', JStr ''Mon'')], elems = None\<rparr>\<rparr>,
      Responded \<lparr>status = 200, payload = JsonJoke fish\<rparr>,
      Responded \<lparr>status = 200, payload = JsonObject
        [(''outcome'', JStr ''success''), (''message'', JStr ''jokes list has been reset'')]\<rparr>,
      Responded \<lparr>status = 200, payload = JsonArray [Some fish]\<rparr>]"
  using reset_restores_seed [of "[fish]"
      "[PostJoke (BodyObject \<lparr>props = [], elems = None\<rparr>) ''Mon'', DeleteJoke (Some (code_units ''1''))]"]
  by (simp add: parseInt_def code_units_def is_white_space_def is_digit_of_def digit_value_def digits_value_def
      round_to_double_def excess_bits.simps Let_def
      init_def fish_def get_prop_def handleDeleteJoke_def id_is_def splice1_def
      handleRequestForPOSTJoke_def set_prop_def Let_def handleReset_def handleGetAllJokes_def)

text \<open>
  C8. The claim: \<^verbatim>\<open>GET /jokes/first\<close> answers 200 with the first joke when there is
  one, and 404 on an empty store. \<^verbatim>\<open>handleGetFirstJoke\<close> does so
  (\<open>handleGetFirstJoke_first_or_404\<close>). \<^verbatim>\<open>handleRequestForFirstJoke\<close>, the handler of
  the same route in the other \<^verbatim>\<open>index.js\<close>, answers 200 with an array in both cases:
  of \<^verbatim>\<open>undefined\<close> on the empty store, of the first joke otherwise.
\<close>

theorem first_joke_variant_answers_array:
  "handleRequestForFirstJoke [] = \<lparr>status = 200, payload = JsonArray [None]\<rparr>
   \<and> handleRequestForFirstJoke [fish] = \<lparr>status = 200, payload = JsonArray [Some fish]\<rparr>"
  by (simp add: handleRequestForFirstJoke_def)

text \<open>
  C9. When the jokes of the data file have numeric ids, different from each other and
  all below \<open>10000000\<close>, the jokes of the store have different ids after any sequence of
  requests.
\<close>

theorem store_ids_distinct:
  assumes "distinct (map (\<lambda>j. get_prop j ''id'') seed)"
    and "\<forall>j\<in>set seed. \<exists>n<10000000. get_prop j ''id'' = Some (JNum n)"
  shows "distinct (map (\<lambda>j. get_prop j ''id'') (allJokes (fst (run (init seed) rs))))"
proof -
  have jid: "joke_id = (\<lambda>j. get_prop j ''id'')" by (rule ext) (simp add: joke_id_def)
  from assms have "store_inv (init seed)"
    unfolding store_inv_def init_def jid by force
  then have "store_inv (fst (run (init seed) rs))" by (rule run_keeps_inv)
  then show ?thesis unfolding store_inv_def jid by blast
qed

theorem store_ids_distinct_witness:
  "distinct (map (\<lambda>j. get_prop j ''id'') (allJokes (fst (run (init [fish])
      [PostJoke (BodyObject \<lparr>props = [(''id'', JNum 1)], elems = None\<rparr>) ''Mon'',
       ResetJokes,
       PostJoke (BodyObject \<lparr>props = [(''id'', JNum 1)], elems = None\<rparr>) ''Tue'']))))
   \<and> map (\<lambda>j. get_prop j ''id'') (allJokes (fst (run (init [fish])
      [PostJoke (BodyObject \<lparr>props = [(''id'', JNum 1)], elems = None\<rparr>) ''Mon'',
       ResetJokes,
       PostJoke (BodyObject \<lparr>props = [(''id'', JNum 1)], elems = None\<rparr>) ''Tue'']))) =
     [Some (JNum 1), Some (JNum 10000001)]"
proof -
  have seed_distinct: "distinct (map (\<lambda>j. get_prop j ''id'') [fish])" by simp
  have seed_below: "\<forall>j\<in>set [fish]. \<exists>n<10000000. get_prop j ''id'' = Some (JNum n)"
    by (simp add: fish_def get_prop_def)
  show ?thesis
    using store_ids_distinct [OF seed_distinct seed_below, of
      "[PostJoke (BodyObject \<lparr>props = [(''id'', JNum 1)], elems = None\<rparr>) ''Mon'',
       ResetJokes,
       PostJoke (BodyObject \<lparr>props = [(''id'', JNum 1)], elems = None\<rparr>) ''Tue'']"]
    by (simp add: init_def fish_def get_prop_def handleRequestForPOSTJoke_def set_prop_def
        Let_def handleReset_def)
qed

text \<open>
  C10. A create with an object as body stores and returns that object with \<^verbatim>\<open>id\<close> and
  \<^verbatim>\<open>timestamp\<close> set: every other property reads as in the body, the other properties
  stand in the body's order, the property names are the body's and these two, an array
  keeps its elements, and the joke in the 201 answer is the joke put at the end of the
  store.
\<close>

theorem post_joke_keeps_fields:
  "\<exists>j. handleRequestForPOSTJoke s (BodyObject b) now =
          (s\<lparr>nextJokeId := nextJokeId s + 1, allJokes := allJokes s @ [j]\<rparr>,
           \<lparr>status = 201, payload = JsonJoke j\<rparr>)
      \<and> (\<forall>k. k \<noteq> ''id'' \<and> k \<noteq> ''timestamp'' \<longrightarrow> get_prop j k = get_prop b k)
      \<and> filter (\<lambda>p. fst p \<notin> {''id'', ''timestamp''}) (props j) =
          filter (\<lambda>p. fst p \<notin> {''id'', ''timestamp''}) (props b)
      \<and> fst ` set (props j) = fst ` set (props b) \<union> {''id'', ''timestamp''}
      \<and> elems j = elems b
      \<and> get_prop j ''id'' = Some (JNum (nextJokeId s))
      \<and> get_prop j ''timestamp'' = Some (JStr now)"
proof -
  define j where "j = set_prop (set_prop b ''id'' (JNum (nextJokeId s))) ''timestamp'' (JStr now)"
  have run: "handleRequestForPOSTJoke s (BodyObject b) now =
      (s\<lparr>nextJokeId := nextJokeId s + 1, allJokes := allJokes s @ [j]\<rparr>,
       \<lparr>status = 201, payload = JsonJoke j\<rparr>)"
    by (simp add: handleRequestForPOSTJoke_def Let_def j_def)
  have others: "\<forall>k. k \<noteq> ''id'' \<and> k \<noteq> ''timestamp'' \<longrightarrow> get_prop j k = get_prop b k"
    by (simp add: j_def get_prop_set_prop)
  have order: "filter (\<lambda>p. fst p \<notin> {''id'', ''timestamp''}) (props j) =
      filter (\<lambda>p. fst p \<notin> {''id'', ''timestamp''}) (props b)"
    by (simp add: j_def set_prop_def filter_assign_id_timestamp)
  have keys: "fst ` set (props j) = fst ` set (props b) \<union> {''id'', ''timestamp''}"
    by (auto simp add: j_def set_prop_def keys_assign)
  have arr: "elems j = elems b"
    by (simp add: j_def elems_set_prop)
  have id: "get_prop j ''id'' = Some (JNum (nextJokeId s))"
    by (simp add: j_def get_prop_set_prop)
  have ts: "get_prop j ''timestamp'' = Some (JStr now)"
    by (simp add: j_def get_prop_set_prop)
  from run others order keys arr id ts show ?thesis by blast
qed

theorem post_joke_keeps_fields_witness:
  "handleRequestForPOSTJoke (init [])
     (BodyObject \<lparr>props = [(''id'', JStr ''mine''), (''setup'', JStr ''Why''), (''rating'', JNum 5)],
                   elems = None\<rparr>) ''Mon'' =
     (\<lparr>originalJokesList = [],
         allJokes = [\<lparr>props = [(''id'', JNum 10000000), (''setup'', JStr ''Why''),
                       (''rating'', JNum 5), (''timestamp'', JStr ''Mon'')], elems = None\<rparr>],
         nextJokeId = 10000001\<rparr>,
      \<lparr>status = 201, payload = JsonJoke
         \<lparr>props = [(''id'', JNum 10000000), (''setup'', JStr ''Why''),
                   (''rating'', JNum 5), (''timestamp'', JStr ''Mon'')], elems = None\<rparr>\<rparr>)"
  using post_joke_keeps_fields [of "init []"
      "\<lparr>props = [(''id'', JStr ''mine''), (''setup'', JStr ''Why''), (''rating'', JNum 5)],
         elems = None\<rparr>" "''Mon''"]
  by (simp add: init_def handleRequestForPOSTJoke_def set_prop_def Let_def)

end
